theory Spec2Isabelle
  imports Main "HOL-Library.Word"
begin

section \<open>The DungeonGenFHE contract\<close>

text \<open>
  A shallow embedding of the Solidity contract \<open>DungeonGenFHE\<close> (pragma \<open>^0.8.24\<close>).
  Storage is a record, every external function is a function from the storage to either
  the error it reverts with or the storage it leaves behind. A revert discards every write
  of the call, so a failing call returns no storage at all.

  The library \<open>FHE\<close>, \<open>keccak256\<close>, \<open>abi.encode\<close> and \<open>abi.decode\<close> are not part of
  the contract; they are taken as parameters, collected in the record \<open>env\<close>. The request
  id that \<open>FHE.requestDecryption\<close> returns is an argument of the call that receives it.
  \<open>FHE.add\<close> and \<open>FHE.mul\<close> are functions on handles; \<open>FHE.checkSignatures\<close> and
  \<open>abi.decode\<close> revert or pass, which the model reads as a boolean and an option.

  The contract stores the ciphertext handles in \<open>uint256\<close> fields and passes them around
  as \<open>euint32\<close> and \<open>bytes32\<close>; all three are 256-bit words here.
\<close>

subsection \<open>Data\<close>

type_synonym address = "160 word"
type_synonym uint256 = "256 word"
type_synonym bytes32 = "256 word"
type_synonym bytes = "8 word list"

record DecryptionContext =
  batchId :: uint256
  stateHash :: bytes32
  processed :: bool

record Batch =
  id :: uint256
  "open" :: bool
  totalEncryptedPartyStrength :: uint256
  totalEncryptedPartyAgility :: uint256
  totalEncryptedPartyIntellect :: uint256
  dungeonSeed :: uint256

text \<open>
  The custom errors of the contract. \<open>Panic\<close> is the arithmetic panic of checked
  \<open>uint256\<close> arithmetic (Solidity 0.8), \<open>InvalidSignatures\<close> the revert of
  \<open>FHE.checkSignatures\<close>, \<open>DecodeFailed\<close> the revert of \<open>abi.decode\<close>.
  The contract names an error and an event \<open>BatchClosed\<close>; the event is \<open>BatchClosedEv\<close>.
\<close>

datatype error =
    NotOwner | NotProvider | Paused | CooldownActive | BatchClosed
  | ReplayAttempt | StateMismatch | InvalidBatchId
  | Panic | InvalidSignatures | DecodeFailed

datatype event =
    OwnershipTransferred address address
  | ProviderAdded address
  | ProviderRemoved address
  | ContractPaused
  | ContractUnpaused
  | CooldownSecondsChanged uint256 uint256
  | BatchOpened uint256
  | BatchClosedEv uint256
  | PartyAttributesSubmitted uint256 address
  | DungeonSeedGenerated uint256
  | DecryptionRequested uint256 uint256
  | DecryptionCompleted uint256 uint256 uint256 uint256 uint256 uint256

record state =
  owner :: address
  providers :: "address \<Rightarrow> bool"
  paused :: bool
  cooldownSeconds :: uint256
  lastSubmissionTime :: "address \<Rightarrow> uint256"
  lastDecryptionRequestTime :: "address \<Rightarrow> uint256"
  decryptionContexts :: "uint256 \<Rightarrow> DecryptionContext"
  batches :: "uint256 \<Rightarrow> Batch"
  currentBatchId :: uint256
  events :: "event list"

text \<open>The parameters: what the contract calls and does not define.\<close>

record env =
  fhe_add :: "uint256 \<Rightarrow> uint256 \<Rightarrow> uint256"
  fhe_mul :: "uint256 \<Rightarrow> uint256 \<Rightarrow> uint256"
  keccak256_encode :: "bytes32 list \<Rightarrow> address \<Rightarrow> bytes32"
  this :: address
  checkSignatures :: "uint256 \<Rightarrow> bytes \<Rightarrow> bytes \<Rightarrow> bool"
  abi_decode :: "bytes \<Rightarrow> (uint256 \<times> uint256 \<times> uint256 \<times> uint256) option"

subsection \<open>Checked arithmetic\<close>

text \<open>\<open>a + b\<close> on \<open>uint256\<close> in Solidity 0.8: a panic instead of a wrap-around.\<close>

definition checked_add :: "uint256 \<Rightarrow> uint256 \<Rightarrow> uint256 option" where
  "checked_add a b = (if unat a + unat b < 2 ^ 256 then Some (a + b) else None)"

subsection \<open>Storage defaults and the constructor\<close>

definition zero_context :: DecryptionContext where
  "zero_context = \<lparr>batchId = 0, stateHash = 0, processed = False\<rparr>"

definition zero_batch :: Batch where
  "zero_batch = \<lparr>id = 0, open = False, totalEncryptedPartyStrength = 0,
     totalEncryptedPartyAgility = 0, totalEncryptedPartyIntellect = 0, dungeonSeed = 0\<rparr>"

text \<open>
  Storage before the constructor body runs: everything zero, except
  \<open>currentBatchId\<close>, which is declared with the initial value 1.
\<close>

definition zero_state :: state where
  "zero_state = \<lparr>owner = 0, providers = (\<lambda>_. False), paused = False, cooldownSeconds = 0,
     lastSubmissionTime = (\<lambda>_. 0), lastDecryptionRequestTime = (\<lambda>_. 0),
     decryptionContexts = (\<lambda>_. zero_context), batches = (\<lambda>_. zero_batch),
     currentBatchId = 1, events = []\<rparr>"

definition emit :: "event \<Rightarrow> state \<Rightarrow> state" where
  "emit e s = s\<lparr>events := events s @ [e]\<rparr>"

definition constructor :: "address \<Rightarrow> state" where
  "constructor sender =
     (let s1 = zero_state\<lparr>owner := sender\<rparr>;
          s2 = s1\<lparr>providers := (providers s1)(owner s1 := True)\<rparr>;
          s3 = emit (ProviderAdded (owner s2)) s2
      in s3\<lparr>cooldownSeconds := 30\<rparr>)"

subsection \<open>Owner functions\<close>

definition transferOwnership :: "address \<Rightarrow> address \<Rightarrow> state \<Rightarrow> error + state" where
  "transferOwnership sender newOwner s =
     (if sender \<noteq> owner s then Inl NotOwner
      else Inr (emit (OwnershipTransferred (owner s) newOwner) (s\<lparr>owner := newOwner\<rparr>)))"

definition addProvider :: "address \<Rightarrow> address \<Rightarrow> state \<Rightarrow> error + state" where
  "addProvider sender provider s =
     (if sender \<noteq> owner s then Inl NotOwner
      else Inr (emit (ProviderAdded provider)
                  (s\<lparr>providers := (providers s)(provider := True)\<rparr>)))"

definition removeProvider :: "address \<Rightarrow> address \<Rightarrow> state \<Rightarrow> error + state" where
  "removeProvider sender provider s =
     (if sender \<noteq> owner s then Inl NotOwner
      else Inr (emit (ProviderRemoved provider)
                  (s\<lparr>providers := (providers s)(provider := False)\<rparr>)))"

definition setPaused :: "address \<Rightarrow> bool \<Rightarrow> state \<Rightarrow> error + state" where
  "setPaused sender p s =
     (if sender \<noteq> owner s then Inl NotOwner
      else if paused s \<noteq> p
        then Inr (emit (if p then ContractPaused else ContractUnpaused) (s\<lparr>paused := p\<rparr>))
        else Inr s)"

definition setCooldownSeconds :: "address \<Rightarrow> uint256 \<Rightarrow> state \<Rightarrow> error + state" where
  "setCooldownSeconds sender c s =
     (if sender \<noteq> owner s then Inl NotOwner
      else Inr (emit (CooldownSecondsChanged (cooldownSeconds s) c)
                  (s\<lparr>cooldownSeconds := c\<rparr>)))"

subsection \<open>Batches\<close>

text \<open>
  The batch literal that \<open>openBatch\<close> writes. The four calls of \<open>_initIfNeeded\<close> that
  follow read the new batch and discard the result of \<open>FHE.asEuint32(0)\<close>: they write
  nothing to the contract's storage.
\<close>

definition new_batch :: "uint256 \<Rightarrow> Batch" where
  "new_batch k = \<lparr>id = k, open = True, totalEncryptedPartyStrength = 0,
     totalEncryptedPartyAgility = 0, totalEncryptedPartyIntellect = 0, dungeonSeed = 0\<rparr>"

definition create_batch :: "uint256 \<Rightarrow> state \<Rightarrow> state" where
  "create_batch k s =
     emit (BatchOpened k) (s\<lparr>currentBatchId := k, batches := (batches s)(k := new_batch k)\<rparr>)"

definition openBatch :: "address \<Rightarrow> state \<Rightarrow> error + state" where
  "openBatch sender s =
     (if sender \<noteq> owner s then Inl NotOwner
      else if paused s then Inl Paused
      else if open (batches s (currentBatchId s))
        then (case checked_add (currentBatchId s) 1 of
                None \<Rightarrow> Inl Panic
              | Some k \<Rightarrow> Inr (create_batch k s))
        else Inr (create_batch (currentBatchId s) s))"

definition closeBatch :: "address \<Rightarrow> state \<Rightarrow> error + state" where
  "closeBatch sender s =
     (if sender \<noteq> owner s then Inl NotOwner
      else if paused s then Inl Paused
      else if \<not> open (batches s (currentBatchId s)) then Inl BatchClosed
      else Inr (emit (BatchClosedEv (currentBatchId s))
             (s\<lparr>batches := (batches s)(currentBatchId s :=
                   (batches s (currentBatchId s))\<lparr>open := False\<rparr>)\<rparr>)))"

subsection \<open>Contributions\<close>

definition submitPartyAttributes ::
  "env \<Rightarrow> address \<Rightarrow> uint256 \<Rightarrow> uint256 \<Rightarrow> uint256 \<Rightarrow> uint256 \<Rightarrow> state \<Rightarrow> error + state" where
  "submitPartyAttributes E sender now encryptedStrength encryptedAgility encryptedIntellect s =
     (if \<not> providers s sender then Inl NotProvider
      else if paused s then Inl Paused
      else case checked_add (lastSubmissionTime s sender) (cooldownSeconds s) of
        None \<Rightarrow> Inl Panic
      | Some deadline \<Rightarrow>
         if now < deadline then Inl CooldownActive
         else if \<not> open (batches s (currentBatchId s)) then Inl BatchClosed
         else
           (let b = batches s (currentBatchId s);
                newEncryptedStrength = fhe_add E (totalEncryptedPartyStrength b) encryptedStrength;
                newEncryptedAgility = fhe_add E (totalEncryptedPartyAgility b) encryptedAgility;
                newEncryptedIntellect = fhe_add E (totalEncryptedPartyIntellect b) encryptedIntellect
            in Inr (emit (PartyAttributesSubmitted (currentBatchId s) sender)
                 (s\<lparr>lastSubmissionTime := (lastSubmissionTime s)(sender := now),
                     batches := (batches s)(currentBatchId s :=
                       b\<lparr>totalEncryptedPartyStrength := newEncryptedStrength,
                         totalEncryptedPartyAgility := newEncryptedAgility,
                         totalEncryptedPartyIntellect := newEncryptedIntellect\<rparr>)\<rparr>))))"

subsection \<open>Seed generation and the decryption request\<close>

definition hashCiphertexts :: "env \<Rightarrow> bytes32 list \<Rightarrow> bytes32" where
  "hashCiphertexts E cts = keccak256_encode E cts (this E)"

definition batch_cts :: "Batch \<Rightarrow> bytes32 list" where
  "batch_cts b = [totalEncryptedPartyStrength b, totalEncryptedPartyAgility b,
     totalEncryptedPartyIntellect b, dungeonSeed b]"

text \<open>\<open>requestId\<close> is what \<open>FHE.requestDecryption\<close> returns to this call.\<close>

definition generateDungeonSeed ::
  "env \<Rightarrow> address \<Rightarrow> uint256 \<Rightarrow> uint256 \<Rightarrow> state \<Rightarrow> error + state" where
  "generateDungeonSeed E sender now requestId s =
     (if \<not> providers s sender then Inl NotProvider
      else if paused s then Inl Paused
      else case checked_add (lastDecryptionRequestTime s sender) (cooldownSeconds s) of
        None \<Rightarrow> Inl Panic
      | Some deadline \<Rightarrow>
         if now < deadline then Inl CooldownActive
         else if \<not> open (batches s (currentBatchId s)) then Inl BatchClosed
         else
           (let b = batches s (currentBatchId s);
                tempProduct = fhe_mul E (totalEncryptedPartyStrength b) (totalEncryptedPartyAgility b);
                tempSum = fhe_add E tempProduct (totalEncryptedPartyIntellect b);
                b' = b\<lparr>dungeonSeed := tempSum\<rparr>;
                s1 = emit (DungeonSeedGenerated (currentBatchId s))
                       (s\<lparr>lastDecryptionRequestTime :=
                            (lastDecryptionRequestTime s)(sender := now),
                          batches := (batches s)(currentBatchId s := b')\<rparr>);
                hash = hashCiphertexts E (batch_cts b');
                s2 = s1\<lparr>decryptionContexts := (decryptionContexts s1)(requestId :=
                       \<lparr>batchId = currentBatchId s1, stateHash = hash, processed = False\<rparr>)\<rparr>
            in Inr (emit (DecryptionRequested requestId (currentBatchId s2)) s2)))"

subsection \<open>The decryption callback\<close>

definition myCallback :: "env \<Rightarrow> uint256 \<Rightarrow> bytes \<Rightarrow> bytes \<Rightarrow> state \<Rightarrow> error + state" where
  "myCallback E requestId cleartexts proof s =
     (let ctx = decryptionContexts s requestId in
      if processed ctx then Inl ReplayAttempt
      else
        (let batch = batches s (batchId ctx) in
         if id batch = 0 then Inl InvalidBatchId
         else if hashCiphertexts E (batch_cts batch) \<noteq> stateHash ctx then Inl StateMismatch
         else if \<not> checkSignatures E requestId cleartexts proof then Inl InvalidSignatures
         else case abi_decode E cleartexts of
           None \<Rightarrow> Inl DecodeFailed
         | Some (strength, agility, intellect, seed) \<Rightarrow>
             Inr (emit (DecryptionCompleted requestId (batchId ctx) strength agility intellect seed)
                   (s\<lparr>decryptionContexts := (decryptionContexts s)(requestId :=
                         ctx\<lparr>processed := True\<rparr>)\<rparr>))))"

subsection \<open>Transactions\<close>

datatype call =
    TransferOwnership address
  | AddProvider address
  | RemoveProvider address
  | SetPaused bool
  | SetCooldownSeconds uint256
  | OpenBatch
  | CloseBatch
  | SubmitPartyAttributes uint256 uint256 uint256
  | GenerateDungeonSeed uint256
  | MyCallback uint256 bytes bytes

text \<open>A transaction: \<open>msg.sender\<close>, \<open>block.timestamp\<close> and the function called.\<close>

fun exec :: "env \<Rightarrow> address \<Rightarrow> uint256 \<Rightarrow> call \<Rightarrow> state \<Rightarrow> error + state" where
  "exec E sender now (TransferOwnership a) s = transferOwnership sender a s"
| "exec E sender now (AddProvider a) s = addProvider sender a s"
| "exec E sender now (RemoveProvider a) s = removeProvider sender a s"
| "exec E sender now (SetPaused p) s = setPaused sender p s"
| "exec E sender now (SetCooldownSeconds c) s = setCooldownSeconds sender c s"
| "exec E sender now OpenBatch s = openBatch sender s"
| "exec E sender now CloseBatch s = closeBatch sender s"
| "exec E sender now (SubmitPartyAttributes x y z) s = submitPartyAttributes E sender now x y z s"
| "exec E sender now (GenerateDungeonSeed r) s = generateDungeonSeed E sender now r s"
| "exec E sender now (MyCallback r c p) s = myCallback E r c p s"

text \<open>A sequence of transactions; a reverted transaction leaves the storage as it was.\<close>

fun run :: "env \<Rightarrow> (address \<times> uint256 \<times> call) list \<Rightarrow> state \<Rightarrow> state" where
  "run E [] s = s"
| "run E ((sender, now, c) # txs) s =
     (case exec E sender now c s of Inl e \<Rightarrow> run E txs s | Inr s' \<Rightarrow> run E txs s')"

text \<open>The storages the contract can be in: after deployment and any transactions.\<close>

inductive reachable :: "env \<Rightarrow> state \<Rightarrow> bool" for E :: env where
  deployed: "reachable E (constructor deployer)"
| transact: "reachable E s \<Longrightarrow> exec E sender now c s = Inr s' \<Longrightarrow> reachable E s'"

text \<open>
  A concrete instance of the parameters, for evaluating the contract on examples: handles
  are the plaintexts themselves, the hash is a polynomial in the handles, and every proof
  but the empty one is accepted. Cleartexts decode as \<open>abi.decode\<close> decodes four
  \<open>uint256\<close>: fewer than 128 bytes revert, otherwise the first four 32-byte words are
  read big-endian.
\<close>

definition be_uint256 :: "bytes \<Rightarrow> uint256" where
  "be_uint256 bs = foldl (\<lambda>n b. 256 * n + ucast b) 0 bs"

definition decode_uint256x4 :: "bytes \<Rightarrow> (uint256 \<times> uint256 \<times> uint256 \<times> uint256) option" where
  "decode_uint256x4 c =
     (if length c < 128 then None
      else Some (be_uint256 (take 32 c), be_uint256 (take 32 (drop 32 c)),
                 be_uint256 (take 32 (drop 64 c)), be_uint256 (take 32 (drop 96 c))))"

definition example_env :: env where
  "example_env = \<lparr>fhe_add = (\<lambda>a b. a + b), fhe_mul = (\<lambda>a b. a * b),
     keccak256_encode = (\<lambda>cts a. foldr (\<lambda>c h. c + 1000 * h) cts 1),
     this = 42,
     checkSignatures = (\<lambda>r c p. p \<noteq> []),
     abi_decode = decode_uint256x4\<rparr>"

text \<open>
  The oracle's reply in the examples: the ABI encoding of \<open>(9, 8, 6, 78)\<close>, 128 bytes.
\<close>

definition abi_word :: "8 word \<Rightarrow> bytes" where
  "abi_word b = replicate 31 0 @ [b]"

definition reply_cleartexts :: bytes where
  "reply_cleartexts = abi_word 9 @ abi_word 8 @ abi_word 6 @ abi_word 78"

subsection \<open>The storage invariant\<close>

text \<open>
  What every storage the contract can reach satisfies: batch ids start at 1, no batch
  beyond \<open>currentBatchId\<close> has been written, a written batch carries its own key as
  \<open>id\<close>, and every stored decryption context refers to a written batch.
\<close>

definition storage_inv :: "state \<Rightarrow> bool" where
  "storage_inv s \<longleftrightarrow>
     currentBatchId s \<noteq> 0
   \<and> batches s 0 = zero_batch
   \<and> (\<forall>k. currentBatchId s < k \<longrightarrow> batches s k = zero_batch)
   \<and> (\<forall>k. batches s k = zero_batch \<or> id (batches s k) = k)
   \<and> (\<forall>k. BatchOpened k \<in> set (events s) \<longrightarrow> k \<le> currentBatchId s)
   \<and> (\<forall>r. decryptionContexts s r = zero_context
          \<or> (batchId (decryptionContexts s r) \<noteq> 0
             \<and> id (batches s (batchId (decryptionContexts s r))) = batchId (decryptionContexts s r)))"

subsection \<open>Example transaction sequences\<close>

text \<open>The deployer is address 1 in every example; times are in seconds.\<close>

definition scenario_txs :: "(address \<times> uint256 \<times> call) list" where
  "scenario_txs = [(1, 10, AddProvider 2), (1, 10, AddProvider 3), (1, 20, OpenBatch),
     (2, 100, SubmitPartyAttributes 5 3 4), (3, 100, SubmitPartyAttributes 4 5 2)]"

definition pending_txs :: "(address \<times> uint256 \<times> call) list" where
  "pending_txs = scenario_txs @ [(2, 200, GenerateDungeonSeed 7)]"

definition processed_txs :: "(address \<times> uint256 \<times> call) list" where
  "processed_txs = pending_txs @ [(5, 250, MyCallback 7 reply_cleartexts [1])]"





definition paused_txs :: "(address \<times> uint256 \<times> call) list" where
  "paused_txs = [(1, 20, OpenBatch), (1, 30, SetPaused True)]"

definition open_txs :: "(address \<times> uint256 \<times> call) list" where
  "open_txs = [(1, 20, OpenBatch)]"

definition two_open_txs :: "(address \<times> uint256 \<times> call) list" where
  "two_open_txs = [(1, 20, OpenBatch), (1, 30, OpenBatch)]"

definition reopen_txs :: "(address \<times> uint256 \<times> call) list" where
  "reopen_txs = [(1, 20, OpenBatch), (1, 30, CloseBatch)]"

definition cooldown_txs :: "(address \<times> uint256 \<times> call) list" where
  "cooldown_txs = [(1, 20, OpenBatch), (1, 100, SubmitPartyAttributes 5 3 4)]"

definition overflow_txs :: "(address \<times> uint256 \<times> call) list" where
  "overflow_txs = [(1, 20, OpenBatch), (1, 100, SubmitPartyAttributes 5 3 4),
     (1, 110, SetCooldownSeconds
        115792089237316195423570985008687907853269984665640564039457584007913129639935)]"

definition new_owner_txs :: "(address \<times> uint256 \<times> call) list" where
  "new_owner_txs = [(1, 10, TransferOwnership 9), (9, 20, OpenBatch)]"

section \<open>Evaluation and small facts\<close>

lemma example_env_simps:
  "fhe_add example_env a b = a + b"
  "fhe_mul example_env a b = a * b"
  "keccak256_encode example_env cts x = foldr (\<lambda>c h. c + 1000 * h) cts 1"
  "this example_env = 42"
  "checkSignatures example_env r c p \<longleftrightarrow> p \<noteq> []"
  "abi_decode example_env c = decode_uint256x4 c"
  by (simp_all add: example_env_def)

lemma be_uint256_abi_word: "be_uint256 (abi_word b) = ucast b"
  by (simp add: be_uint256_def abi_word_def eval_nat_numeral)

lemma length_abi_word: "length (abi_word b) = 32"
  by (simp add: abi_word_def)

lemma reply_cleartexts_decode:
  "decode_uint256x4 reply_cleartexts = Some (9, 8, 6, 78)"
  by (simp add: decode_uint256x4_def reply_cleartexts_def be_uint256_abi_word length_abi_word)

lemma empty_cleartexts_decode: "decode_uint256x4 [] = None"
  by (simp add: decode_uint256x4_def)

lemmas eval_defs = constructor_def zero_state_def zero_context_def zero_batch_def emit_def
  transferOwnership_def addProvider_def removeProvider_def setPaused_def setCooldownSeconds_def
  new_batch_def create_batch_def openBatch_def closeBatch_def submitPartyAttributes_def
  hashCiphertexts_def batch_cts_def generateDungeonSeed_def myCallback_def checked_add_def
  example_env_simps reply_cleartexts_decode Let_def

lemma checked_add_one:
  assumes "checked_add x 1 = Some k"
  shows "k = x + 1" and "x < k" and "k \<noteq> 0"
proof -
  from assms show k: "k = x + 1" and lt: "x < k"
    by (auto simp: checked_add_def word_less_nat_alt unat_word_ariths split: if_splits)
  from lt show "k \<noteq> 0" by auto
qed

lemma checked_add_Some:
  "checked_add x y = Some d \<Longrightarrow> unat d = unat x + unat y \<and> unat x + unat y < 2 ^ 256"
  by (auto simp: checked_add_def unat_word_ariths split: if_splits)

lemma checked_add_None:
  "checked_add x y = None \<longleftrightarrow> 2 ^ 256 \<le> unat x + unat y"
  by (auto simp: checked_add_def)

section \<open>What a successful call has done\<close>

text \<open>
  One lemma for each function that writes batches or contexts: the checks that passed and
  the storage fields after the call, field by field.
\<close>

lemma openBatch_Inr:
  assumes "openBatch a s = Inr s'"
  shows "a = owner s" and "\<not> paused s"
    and "s' = create_batch (currentBatchId s') s"
    and "open (batches s (currentBatchId s)) \<Longrightarrow>
           currentBatchId s' = currentBatchId s + 1 \<and> currentBatchId s < currentBatchId s'"
    and "\<not> open (batches s (currentBatchId s)) \<Longrightarrow> currentBatchId s' = currentBatchId s"
  using assms
  by (auto simp: openBatch_def create_batch_def emit_def
      split: if_splits option.splits dest: checked_add_one)

lemma submitPartyAttributes_Inr:
  assumes "submitPartyAttributes E a t x y z s = Inr s'"
  shows "providers s a" and "\<not> paused s" and "open (batches s (currentBatchId s))"
    and "currentBatchId s' = currentBatchId s"
    and "decryptionContexts s' = decryptionContexts s"
    and "batches s' = (batches s)(currentBatchId s := (batches s (currentBatchId s))
           \<lparr>totalEncryptedPartyStrength :=
              fhe_add E (totalEncryptedPartyStrength (batches s (currentBatchId s))) x,
            totalEncryptedPartyAgility :=
              fhe_add E (totalEncryptedPartyAgility (batches s (currentBatchId s))) y,
            totalEncryptedPartyIntellect :=
              fhe_add E (totalEncryptedPartyIntellect (batches s (currentBatchId s))) z\<rparr>)"
    and "events s' = events s @ [PartyAttributesSubmitted (currentBatchId s) a]"
    and "lastSubmissionTime s' = (lastSubmissionTime s)(a := t)"
    and "lastDecryptionRequestTime s' = lastDecryptionRequestTime s"
  using assms
  by (auto simp: submitPartyAttributes_def emit_def Let_def split: if_splits option.splits)

lemma generateDungeonSeed_Inr:
  assumes "generateDungeonSeed E a t r s = Inr s'"
  shows "providers s a" and "\<not> paused s" and "open (batches s (currentBatchId s))"
    and "currentBatchId s' = currentBatchId s"
    and "batches s' = (batches s)(currentBatchId s := (batches s (currentBatchId s))
           \<lparr>dungeonSeed := fhe_add E
              (fhe_mul E (totalEncryptedPartyStrength (batches s (currentBatchId s)))
                         (totalEncryptedPartyAgility (batches s (currentBatchId s))))
              (totalEncryptedPartyIntellect (batches s (currentBatchId s)))\<rparr>)"
    and "decryptionContexts s' = (decryptionContexts s)(r :=
           \<lparr>batchId = currentBatchId s,
            stateHash = hashCiphertexts E (batch_cts (batches s' (currentBatchId s))),
            processed = False\<rparr>)"
    and "events s' = events s @ [DungeonSeedGenerated (currentBatchId s),
           DecryptionRequested r (currentBatchId s)]"
    and "lastDecryptionRequestTime s' = (lastDecryptionRequestTime s)(a := t)"
    and "lastSubmissionTime s' = lastSubmissionTime s"
  using assms
  by (auto simp: generateDungeonSeed_def emit_def Let_def split: if_splits option.splits)

lemma myCallback_Inr:
  assumes "myCallback E r c p s = Inr s'"
  shows "\<not> processed (decryptionContexts s r)"
    and "id (batches s (batchId (decryptionContexts s r))) \<noteq> 0"
    and "hashCiphertexts E (batch_cts (batches s (batchId (decryptionContexts s r))))
           = stateHash (decryptionContexts s r)"
    and "checkSignatures E r c p"
    and "currentBatchId s' = currentBatchId s"
    and "batches s' = batches s"
    and "decryptionContexts s' = (decryptionContexts s)(r :=
           (decryptionContexts s r)\<lparr>processed := True\<rparr>)"
    and "\<exists>e. events s' = events s @ [e] \<and> (\<forall>k. e \<noteq> BatchOpened k)"
  using assms
  by (auto simp: myCallback_def emit_def Let_def split: if_splits option.splits)

section \<open>The invariant holds in every reachable storage\<close>

lemma inv_constructor: "storage_inv (constructor d)"
  by (simp add: storage_inv_def constructor_def zero_state_def emit_def Let_def)

lemma inv_create_batch:
  assumes "storage_inv s" and "currentBatchId s \<le> k"
  shows "storage_inv (create_batch k s)"
proof -
  from assms have k0: "k \<noteq> 0"
    by (auto simp: storage_inv_def)
  have above: "batches s j = zero_batch" if "k < j" for j
    using assms that by (auto simp: storage_inv_def)
  have ev: "j \<le> k" if "BatchOpened j \<in> set (events s)" for j
    using assms that by (auto simp: storage_inv_def)
  have ctx: "decryptionContexts s r = zero_context
      \<or> (batchId (decryptionContexts s r) \<noteq> 0
          \<and> id (batches s (batchId (decryptionContexts s r))) = batchId (decryptionContexts s r))" for r
    using assms by (auto simp: storage_inv_def)
  have old: "batches s 0 = zero_batch" "\<And>j. batches s j = zero_batch \<or> id (batches s j) = j"
    using assms by (auto simp: storage_inv_def)
  show ?thesis
    unfolding storage_inv_def
    apply (intro conjI allI impI)
    subgoal using k0 by (simp add: create_batch_def emit_def)
    subgoal using k0 old by (simp add: create_batch_def emit_def)
    subgoal for j using above[of j] by (auto simp add: create_batch_def emit_def)
    subgoal for j using old(2)[of j] by (auto simp add: create_batch_def emit_def new_batch_def)
    subgoal for j using ev[of j] by (auto simp add: create_batch_def emit_def)
    subgoal for r using ctx[of r] by (auto simp add: create_batch_def emit_def new_batch_def)
    done
qed

lemma inv_openBatch:
  assumes "storage_inv s" "openBatch a s = Inr s'"
  shows "storage_inv s'"
proof -
  have "currentBatchId s \<le> currentBatchId s'"
    using openBatch_Inr(4,5)[OF assms(2)] by (cases "open (batches s (currentBatchId s))") auto
  then have "storage_inv (create_batch (currentBatchId s') s)"
    using assms(1) by (rule inv_create_batch[rotated])
  then show ?thesis using openBatch_Inr(3)[OF assms(2)] by simp
qed

lemma open_batch_id:
  assumes "storage_inv s" and "open (batches s k)"
  shows "id (batches s k) = k" and "k \<noteq> 0"
proof -
  from assms(2) have nz: "batches s k \<noteq> zero_batch" by (auto simp: zero_batch_def)
  with assms(1) show "id (batches s k) = k" by (auto simp: storage_inv_def)
  from nz assms(1) show "k \<noteq> 0" by (auto simp: storage_inv_def)
qed

lemma inv_closeBatch:
  assumes "storage_inv s" "closeBatch a s = Inr s'"
  shows "storage_inv s'"
proof -
  let ?c = "currentBatchId s"
  from assms(2) have op: "open (batches s ?c)"
    and s': "s' = emit (BatchClosedEv ?c) (s\<lparr>batches := (batches s)(?c := (batches s ?c)\<lparr>open := False\<rparr>)\<rparr>)"
    by (auto simp: closeBatch_def split: if_splits)
  from op have nz: "batches s ?c \<noteq> zero_batch" by (auto simp: zero_batch_def)
  with assms(1) have idc: "id (batches s ?c) = ?c" by (auto simp: storage_inv_def)
  show ?thesis
    using assms(1) nz idc unfolding storage_inv_def s' emit_def
    by (auto simp: zero_batch_def)
qed

lemma inv_owner_calls:
  assumes "storage_inv s"
  shows "transferOwnership a x s = Inr s' \<Longrightarrow> storage_inv s'"
    and "addProvider a x s = Inr s' \<Longrightarrow> storage_inv s'"
    and "removeProvider a x s = Inr s' \<Longrightarrow> storage_inv s'"
    and "setPaused a p s = Inr s' \<Longrightarrow> storage_inv s'"
    and "setCooldownSeconds a c s = Inr s' \<Longrightarrow> storage_inv s'"
  using assms
  by (auto simp: transferOwnership_def addProvider_def removeProvider_def setPaused_def
      setCooldownSeconds_def emit_def storage_inv_def split: if_splits)

lemma inv_submitPartyAttributes:
  assumes "storage_inv s" "submitPartyAttributes E a t x y z s = Inr s'"
  shows "storage_inv s'"
proof -
  note r = submitPartyAttributes_Inr[OF assms(2)]
  note c = open_batch_id[OF assms(1) r(3)]
  show ?thesis
    using assms(1) c unfolding storage_inv_def r(4) r(5) r(6) r(7)
    by (auto simp: zero_batch_def)
qed

lemma inv_generateDungeonSeed:
  assumes "storage_inv s" "generateDungeonSeed E a t r s = Inr s'"
  shows "storage_inv s'"
proof -
  note g = generateDungeonSeed_Inr[OF assms(2)]
  note c = open_batch_id[OF assms(1) g(3)]
  show ?thesis
    using assms(1) c unfolding storage_inv_def g(4) g(5) g(6) g(7)
    by (auto simp: zero_batch_def)
qed

lemma inv_myCallback:
  assumes "storage_inv s" "myCallback E r c p s = Inr s'"
  shows "storage_inv s'"
proof -
  note m = myCallback_Inr[OF assms(2)]
  from m(8) obtain e where e: "events s' = events s @ [e]" "\<And>k. e \<noteq> BatchOpened k"
    by blast
  from assms(1) m(2) have nz: "decryptionContexts s r \<noteq> zero_context"
    by (auto simp: storage_inv_def zero_context_def zero_batch_def)
  show ?thesis
    using assms(1) nz e(2) unfolding storage_inv_def m(5) m(6) m(7) e(1)
    by (auto simp: zero_context_def)
qed

lemma inv_exec:
  assumes "storage_inv s" "exec E a t c s = Inr s'"
  shows "storage_inv s'"
  using assms
  by (cases c)
    (auto intro: inv_owner_calls inv_openBatch inv_closeBatch inv_submitPartyAttributes
      inv_generateDungeonSeed inv_myCallback)

lemma reachable_inv: "reachable E s \<Longrightarrow> storage_inv s"
  by (induction rule: reachable.induct) (auto intro: inv_constructor inv_exec)

lemma reachable_run: "reachable E s \<Longrightarrow> reachable E (run E txs s)"
proof (induction txs arbitrary: s)
  case Nil
  then show ?case by simp
next
  case (Cons tx txs)
  obtain a t c where tx: "tx = (a, t, c)" by (cases tx)
  show ?case
  proof (cases "exec E a t c s")
    case (Inl e)
    then show ?thesis using Cons tx by simp
  next
    case (Inr s')
    then have "reachable E s'" using Cons.prems by (rule reachable.transact[rotated])
    then show ?thesis using Cons.IH Inr tx by simp
  qed
qed

lemma inv_open_range:
  assumes "storage_inv s" and "open (batches s k)"
  shows "k \<noteq> 0 \<and> k \<le> currentBatchId s"
proof -
  from assms(2) have nz: "batches s k \<noteq> zero_batch" by (auto simp: zero_batch_def)
  with assms(1) have "k \<noteq> 0" and "\<not> currentBatchId s < k" by (auto simp: storage_inv_def)
  then show ?thesis by auto
qed

lemma inv_fresh_id:
  assumes "storage_inv s" and "currentBatchId s < k"
  shows "batches s k = zero_batch" and "BatchOpened k \<notin> set (events s)"
  using assms by (auto simp: storage_inv_def)


section \<open>The initial state\<close>

text \<open>
  C10. After construction the deployer is the owner and a provider, the contract is not
  paused, and the cooldown is 30 seconds.
\<close>

theorem constructor_initial_state:
  "owner (constructor deployer) = deployer
   \<and> providers (constructor deployer) deployer
   \<and> \<not> paused (constructor deployer)
   \<and> cooldownSeconds (constructor deployer) = 30"
  by (simp add: constructor_def zero_state_def emit_def Let_def)

section \<open>The order of the gates\<close>

text \<open>
  \<open>submitPartyAttributes\<close> and \<open>generateDungeonSeed\<close> carry the modifiers
  \<open>onlyProvider whenNotPaused\<close>, which run in the order written: the role check comes
  first, the pause check second, and both precede the cooldown and the batch check.
\<close>

text \<open>
  C3, as the contract has it. In \<open>submitPartyAttributes\<close> and \<open>generateDungeonSeed\<close> a
  caller outside the provider set is rejected with \<open>NotProvider\<close> whether or not the
  contract is paused; a caller in the provider set is rejected with \<open>Paused\<close> while the
  contract is paused, whatever the cooldown and the batch state are.
\<close>

theorem provider_gate_order:
  "(\<not> providers s a \<longrightarrow>
      submitPartyAttributes E a t x y z s = Inl NotProvider
      \<and> generateDungeonSeed E a t r s = Inl NotProvider)
   \<and> (providers s a \<and> paused s \<longrightarrow>
      submitPartyAttributes E a t x y z s = Inl Paused
      \<and> generateDungeonSeed E a t r s = Inl Paused)"
  by (simp add: submitPartyAttributes_def generateDungeonSeed_def)

lemma paused_state:
  "paused (run example_env paused_txs (constructor 1))"
  "providers (run example_env paused_txs (constructor 1)) 1"
  "\<not> providers (run example_env paused_txs (constructor 1)) 2"
  by (simp_all add: paused_txs_def eval_defs)

theorem provider_gate_order_witness:
  "paused (run example_env paused_txs (constructor 1))
   \<and> submitPartyAttributes example_env 1 100 5 3 4 (run example_env paused_txs (constructor 1))
       = Inl Paused
   \<and> generateDungeonSeed example_env 1 100 7 (run example_env paused_txs (constructor 1))
       = Inl Paused
   \<and> submitPartyAttributes example_env 2 100 5 3 4 (run example_env paused_txs (constructor 1))
       = Inl NotProvider"
  using provider_gate_order[of "run example_env paused_txs (constructor 1)" 1
      example_env 100 5 3 4 7]
    provider_gate_order[of "run example_env paused_txs (constructor 1)" 2
      example_env 100 5 3 4 7]
  by (simp add: paused_state)

text \<open>
  The contract is paused and address 2 is not a provider: both calls revert, but not
  with \<open>Paused\<close>.
\<close>

theorem paused_first_counterexample:
  "reachable example_env (run example_env paused_txs (constructor 1))
   \<and> paused (run example_env paused_txs (constructor 1))
   \<and> submitPartyAttributes example_env 2 100 5 3 4 (run example_env paused_txs (constructor 1))
       \<noteq> Inl Paused
   \<and> generateDungeonSeed example_env 2 100 7 (run example_env paused_txs (constructor 1))
       \<noteq> Inl Paused"
proof -
  have "reachable example_env (run example_env paused_txs (constructor 1))"
    by (rule reachable_run) (rule reachable.deployed)
  then show ?thesis
    by (simp add: paused_state submitPartyAttributes_def generateDungeonSeed_def)
qed

text \<open>
  C8, as the contract has it. \<open>generateDungeonSeed\<close> is gated by \<open>onlyProvider\<close> alone:
  it reverts with \<open>NotProvider\<close> exactly when the caller is not in the provider set, and
  being the owner plays no part.
\<close>

theorem generateDungeonSeed_provider_only:
  "generateDungeonSeed E a t r s = Inl NotProvider \<longleftrightarrow> \<not> providers s a"
  by (simp add: generateDungeonSeed_def Let_def split: option.splits)

lemma new_owner_state:
  "owner (run example_env new_owner_txs (constructor 1)) = 9"
  "\<not> providers (run example_env new_owner_txs (constructor 1)) 9"
  "providers (run example_env new_owner_txs (constructor 1)) 1"
  "\<not> paused (run example_env new_owner_txs (constructor 1))"
  "open (batches (run example_env new_owner_txs (constructor 1))
     (currentBatchId (run example_env new_owner_txs (constructor 1))))"
  "lastDecryptionRequestTime (run example_env new_owner_txs (constructor 1)) 9 = 0"
  "cooldownSeconds (run example_env new_owner_txs (constructor 1)) = 30"
  by (simp_all add: new_owner_txs_def eval_defs)

theorem generateDungeonSeed_provider_only_witness:
  "generateDungeonSeed example_env 9 100 7 (run example_env new_owner_txs (constructor 1))
     = Inl NotProvider
   \<and> generateDungeonSeed example_env 1 100 7 (run example_env new_owner_txs (constructor 1))
     \<noteq> Inl NotProvider"
  using generateDungeonSeed_provider_only[of example_env 9 100 7
      "run example_env new_owner_txs (constructor 1)"]
    generateDungeonSeed_provider_only[of example_env 1 100 7
      "run example_env new_owner_txs (constructor 1)"]
  by (simp add: new_owner_state)

text \<open>
  After \<open>transferOwnership\<close> the new owner, address 9, is not a provider. The contract is
  not paused, the current batch is open and the cooldown has passed, and the owner's call
  still reverts with \<open>NotProvider\<close>.
\<close>

theorem owner_gate_counterexample:
  "reachable example_env (run example_env new_owner_txs (constructor 1))
   \<and> owner (run example_env new_owner_txs (constructor 1)) = 9
   \<and> \<not> paused (run example_env new_owner_txs (constructor 1))
   \<and> open (batches (run example_env new_owner_txs (constructor 1))
        (currentBatchId (run example_env new_owner_txs (constructor 1))))
   \<and> unat (lastDecryptionRequestTime (run example_env new_owner_txs (constructor 1)) 9)
        + unat (cooldownSeconds (run example_env new_owner_txs (constructor 1)))
       \<le> unat (100 :: uint256)
   \<and> generateDungeonSeed example_env 9 100 7 (run example_env new_owner_txs (constructor 1))
       = Inl NotProvider"
proof -
  have "reachable example_env (run example_env new_owner_txs (constructor 1))"
    by (rule reachable_run) (rule reachable.deployed)
  then show ?thesis
    by (simp add: new_owner_state generateDungeonSeed_def)
qed

section \<open>The cooldown\<close>

lemma submit_cooldown:
  assumes "providers s a" and "\<not> paused s"
  shows "(submitPartyAttributes E a t x y z s = Inl CooldownActive \<longleftrightarrow>
            unat (lastSubmissionTime s a) + unat (cooldownSeconds s) < 2 ^ 256
            \<and> unat t < unat (lastSubmissionTime s a) + unat (cooldownSeconds s))
      \<and> (submitPartyAttributes E a t x y z s = Inl Panic \<longleftrightarrow>
            2 ^ 256 \<le> unat (lastSubmissionTime s a) + unat (cooldownSeconds s))
      \<and> ((\<exists>s'. submitPartyAttributes E a t x y z s = Inr s') \<longleftrightarrow>
            unat (lastSubmissionTime s a) + unat (cooldownSeconds s) \<le> unat t
            \<and> open (batches s (currentBatchId s)))"
proof (cases "checked_add (lastSubmissionTime s a) (cooldownSeconds s)")
  case None
  then have ov: "2 ^ 256 \<le> unat (lastSubmissionTime s a) + unat (cooldownSeconds s)"
    by (simp add: checked_add_None)
  have tb: "unat t < 2 ^ 256" using unsigned_less[of t] by simp
  have "submitPartyAttributes E a t x y z s = Inl Panic"
    using assms None by (simp add: submitPartyAttributes_def)
  then show ?thesis using ov tb by auto
next
  case (Some d)
  then have d: "unat d = unat (lastSubmissionTime s a) + unat (cooldownSeconds s)"
    and nov: "unat (lastSubmissionTime s a) + unat (cooldownSeconds s) < 2 ^ 256"
    by (auto dest: checked_add_Some)
  have lt: "t < d \<longleftrightarrow> unat t < unat (lastSubmissionTime s a) + unat (cooldownSeconds s)"
    by (simp add: word_less_nat_alt d)
  show ?thesis
  proof (cases "t < d")
    case True
    then have "submitPartyAttributes E a t x y z s = Inl CooldownActive"
      using assms Some by (simp add: submitPartyAttributes_def)
    then show ?thesis using True lt nov by auto
  next
    case False
    show ?thesis
    proof (cases "open (batches s (currentBatchId s))")
      case True
      then have "\<exists>s'. submitPartyAttributes E a t x y z s = Inr s'"
        using assms Some False by (simp add: submitPartyAttributes_def Let_def)
      then show ?thesis using True False lt nov by auto
    next
      case closed: False
      then have "submitPartyAttributes E a t x y z s = Inl BatchClosed"
        using assms Some False by (simp add: submitPartyAttributes_def)
      then show ?thesis using closed False lt nov by auto
    qed
  qed
qed

lemma generate_cooldown:
  assumes "providers s a" and "\<not> paused s"
  shows "(generateDungeonSeed E a t r s = Inl CooldownActive \<longleftrightarrow>
            unat (lastDecryptionRequestTime s a) + unat (cooldownSeconds s) < 2 ^ 256
            \<and> unat t < unat (lastDecryptionRequestTime s a) + unat (cooldownSeconds s))
      \<and> (generateDungeonSeed E a t r s = Inl Panic \<longleftrightarrow>
            2 ^ 256 \<le> unat (lastDecryptionRequestTime s a) + unat (cooldownSeconds s))
      \<and> ((\<exists>s'. generateDungeonSeed E a t r s = Inr s') \<longleftrightarrow>
            unat (lastDecryptionRequestTime s a) + unat (cooldownSeconds s) \<le> unat t
            \<and> open (batches s (currentBatchId s)))"
proof (cases "checked_add (lastDecryptionRequestTime s a) (cooldownSeconds s)")
  case None
  then have ov: "2 ^ 256 \<le> unat (lastDecryptionRequestTime s a) + unat (cooldownSeconds s)"
    by (simp add: checked_add_None)
  have tb: "unat t < 2 ^ 256" using unsigned_less[of t] by simp
  have "generateDungeonSeed E a t r s = Inl Panic"
    using assms None by (simp add: generateDungeonSeed_def)
  then show ?thesis using ov tb by auto
next
  case (Some d)
  then have d: "unat d = unat (lastDecryptionRequestTime s a) + unat (cooldownSeconds s)"
    and nov: "unat (lastDecryptionRequestTime s a) + unat (cooldownSeconds s) < 2 ^ 256"
    by (auto dest: checked_add_Some)
  have lt: "t < d \<longleftrightarrow> unat t < unat (lastDecryptionRequestTime s a) + unat (cooldownSeconds s)"
    by (simp add: word_less_nat_alt d)
  show ?thesis
  proof (cases "t < d")
    case True
    then have "generateDungeonSeed E a t r s = Inl CooldownActive"
      using assms Some by (simp add: generateDungeonSeed_def)
    then show ?thesis using True lt nov by auto
  next
    case False
    show ?thesis
    proof (cases "open (batches s (currentBatchId s))")
      case True
      then have "\<exists>s'. generateDungeonSeed E a t r s = Inr s'"
        using assms Some False by (simp add: generateDungeonSeed_def Let_def)
      then show ?thesis using True False lt nov by auto
    next
      case closed: False
      then have "generateDungeonSeed E a t r s = Inl BatchClosed"
        using assms Some False by (simp add: generateDungeonSeed_def)
      then show ?thesis using closed False lt nov by auto
    qed
  qed
qed

text \<open>
  C7, as the contract has it. For a caller that has passed the role and pause gates, with
  \<open>last\<close> the caller's timestamp for the action (\<open>lastSubmissionTime\<close> for a submission,
  \<open>lastDecryptionRequestTime\<close> for a seed generation):
  the call reverts with \<open>CooldownActive\<close> exactly when \<open>last + cooldownSeconds\<close> fits in
  \<open>uint256\<close> and \<open>now\<close> is below it; it reverts with the arithmetic panic exactly when the
  sum does not fit; it succeeds exactly when \<open>last + cooldownSeconds \<le> now\<close> and the
  current batch is open. A successful call sets the caller's timestamp for that action to
  \<open>now\<close> and leaves the timestamps of the other action alone. A call that reverts
  returns no storage, so it records nothing.
\<close>

theorem cooldown_enforced:
  assumes "providers s a" and "\<not> paused s"
  shows "(submitPartyAttributes E a t x y z s = Inl CooldownActive \<longleftrightarrow>
            unat (lastSubmissionTime s a) + unat (cooldownSeconds s) < 2 ^ 256
            \<and> unat t < unat (lastSubmissionTime s a) + unat (cooldownSeconds s))
      \<and> (submitPartyAttributes E a t x y z s = Inl Panic \<longleftrightarrow>
            2 ^ 256 \<le> unat (lastSubmissionTime s a) + unat (cooldownSeconds s))
      \<and> ((\<exists>s'. submitPartyAttributes E a t x y z s = Inr s') \<longleftrightarrow>
            unat (lastSubmissionTime s a) + unat (cooldownSeconds s) \<le> unat t
            \<and> open (batches s (currentBatchId s)))
      \<and> (\<forall>s'. submitPartyAttributes E a t x y z s = Inr s' \<longrightarrow>
            lastSubmissionTime s' = (lastSubmissionTime s)(a := t)
            \<and> lastDecryptionRequestTime s' = lastDecryptionRequestTime s)
      \<and> (generateDungeonSeed E a t r s = Inl CooldownActive \<longleftrightarrow>
            unat (lastDecryptionRequestTime s a) + unat (cooldownSeconds s) < 2 ^ 256
            \<and> unat t < unat (lastDecryptionRequestTime s a) + unat (cooldownSeconds s))
      \<and> (generateDungeonSeed E a t r s = Inl Panic \<longleftrightarrow>
            2 ^ 256 \<le> unat (lastDecryptionRequestTime s a) + unat (cooldownSeconds s))
      \<and> ((\<exists>s'. generateDungeonSeed E a t r s = Inr s') \<longleftrightarrow>
            unat (lastDecryptionRequestTime s a) + unat (cooldownSeconds s) \<le> unat t
            \<and> open (batches s (currentBatchId s)))
      \<and> (\<forall>s'. generateDungeonSeed E a t r s = Inr s' \<longrightarrow>
            lastDecryptionRequestTime s' = (lastDecryptionRequestTime s)(a := t)
            \<and> lastSubmissionTime s' = lastSubmissionTime s)"
proof -
  note sub = submit_cooldown[OF assms, of E t x y z]
  note gen = generate_cooldown[OF assms, of E t r]
  have st: "\<forall>s'. submitPartyAttributes E a t x y z s = Inr s' \<longrightarrow>
            lastSubmissionTime s' = (lastSubmissionTime s)(a := t)
            \<and> lastDecryptionRequestTime s' = lastDecryptionRequestTime s"
    by (blast dest: submitPartyAttributes_Inr(8,9))
  have gt: "\<forall>s'. generateDungeonSeed E a t r s = Inr s' \<longrightarrow>
            lastDecryptionRequestTime s' = (lastDecryptionRequestTime s)(a := t)
            \<and> lastSubmissionTime s' = lastSubmissionTime s"
    by (blast dest: generateDungeonSeed_Inr(8,9))
  from sub gen st gt show ?thesis by blast
qed

lemma cooldown_state:
  "providers (run example_env cooldown_txs (constructor 1)) 1"
  "\<not> paused (run example_env cooldown_txs (constructor 1))"
  "lastSubmissionTime (run example_env cooldown_txs (constructor 1)) 1 = 100"
  "lastDecryptionRequestTime (run example_env cooldown_txs (constructor 1)) 1 = 0"
  "cooldownSeconds (run example_env cooldown_txs (constructor 1)) = 30"
  "open (batches (run example_env cooldown_txs (constructor 1))
     (currentBatchId (run example_env cooldown_txs (constructor 1))))"
  by (simp_all add: cooldown_txs_def eval_defs)

text \<open>
  Provider 1 submitted at time 100 with a cooldown of 30: a submission at 129 is refused,
  one at 130 is accepted, and a seed generation at 129 is accepted, since it has its own
  timestamp.
\<close>

theorem cooldown_enforced_witness:
  "submitPartyAttributes example_env 1 129 5 3 4 (run example_env cooldown_txs (constructor 1))
     = Inl CooldownActive
   \<and> (\<exists>s'. submitPartyAttributes example_env 1 130 5 3 4
         (run example_env cooldown_txs (constructor 1)) = Inr s')
   \<and> (\<exists>s'. generateDungeonSeed example_env 1 129 7
         (run example_env cooldown_txs (constructor 1)) = Inr s')"
  using cooldown_enforced[OF cooldown_state(1,2), of example_env 129 5 3 4 7]
    cooldown_enforced[OF cooldown_state(1,2), of example_env 130 5 3 4 7]
  by (simp add: cooldown_state)

lemma overflow_state:
  "providers (run example_env overflow_txs (constructor 1)) 1"
  "\<not> paused (run example_env overflow_txs (constructor 1))"
  "lastSubmissionTime (run example_env overflow_txs (constructor 1)) 1 = 100"
  "cooldownSeconds (run example_env overflow_txs (constructor 1))
     = 115792089237316195423570985008687907853269984665640564039457584007913129639935"
  by (simp_all add: overflow_txs_def eval_defs)

text \<open>
  With \<open>cooldownSeconds\<close> set to \<open>2 ^ 256 - 1\<close> and a last submission at 100, the time 200
  is below \<open>last + cooldownSeconds\<close>, and the call reverts with the arithmetic panic of the
  checked addition, not with \<open>CooldownActive\<close>.
\<close>

theorem cooldown_overflow_counterexample:
  "reachable example_env (run example_env overflow_txs (constructor 1))
   \<and> providers (run example_env overflow_txs (constructor 1)) 1
   \<and> \<not> paused (run example_env overflow_txs (constructor 1))
   \<and> unat (200 :: uint256)
       < unat (lastSubmissionTime (run example_env overflow_txs (constructor 1)) 1)
         + unat (cooldownSeconds (run example_env overflow_txs (constructor 1)))
   \<and> submitPartyAttributes example_env 1 200 5 3 4 (run example_env overflow_txs (constructor 1))
       = Inl Panic"
proof -
  have "reachable example_env (run example_env overflow_txs (constructor 1))"
    by (rule reachable_run) (rule reachable.deployed)
  then show ?thesis
    by (simp add: overflow_state submitPartyAttributes_def checked_add_def)
qed

text \<open>
  No other function writes the two timestamp tables: whenever a successful call changes
  an entry, the entry is the caller's own, the call is the action the table belongs to,
  and the new value is \<open>now\<close>.
\<close>

lemma timestamps_written_by_own_action:
  assumes "exec E a t c s = Inr s'"
  shows "lastSubmissionTime s' b \<noteq> lastSubmissionTime s b \<Longrightarrow>
           b = a \<and> lastSubmissionTime s' b = t \<and> (\<exists>x y z. c = SubmitPartyAttributes x y z)"
    and "lastDecryptionRequestTime s' b \<noteq> lastDecryptionRequestTime s b \<Longrightarrow>
           b = a \<and> lastDecryptionRequestTime s' b = t \<and> (\<exists>r. c = GenerateDungeonSeed r)"
proof -
  have "(lastSubmissionTime s' b \<noteq> lastSubmissionTime s b \<longrightarrow>
           b = a \<and> lastSubmissionTime s' b = t \<and> (\<exists>x y z. c = SubmitPartyAttributes x y z))
      \<and> (lastDecryptionRequestTime s' b \<noteq> lastDecryptionRequestTime s b \<longrightarrow>
           b = a \<and> lastDecryptionRequestTime s' b = t \<and> (\<exists>r. c = GenerateDungeonSeed r))"
  proof (cases c)
    case (SubmitPartyAttributes x y z)
    with assms show ?thesis
      by (auto simp: submitPartyAttributes_Inr(8,9) split: if_splits)
  next
    case (GenerateDungeonSeed r)
    with assms show ?thesis
      by (auto simp: generateDungeonSeed_Inr(8,9) split: if_splits)
  next
    case (MyCallback r c' p')
    with assms show ?thesis
      by (auto simp: myCallback_def emit_def Let_def split: if_splits option.splits)
  qed (use assms in \<open>auto simp: transferOwnership_def addProvider_def removeProvider_def
        setPaused_def setCooldownSeconds_def openBatch_def create_batch_def closeBatch_def
        emit_def split: if_splits option.splits\<close>)
  then show "lastSubmissionTime s' b \<noteq> lastSubmissionTime s b \<Longrightarrow>
           b = a \<and> lastSubmissionTime s' b = t \<and> (\<exists>x y z. c = SubmitPartyAttributes x y z)"
    and "lastDecryptionRequestTime s' b \<noteq> lastDecryptionRequestTime s b \<Longrightarrow>
           b = a \<and> lastDecryptionRequestTime s' b = t \<and> (\<exists>r. c = GenerateDungeonSeed r)"
    by blast+
qed

section \<open>Batches\<close>

lemma exec_other_batches:
  assumes "exec E a t c s = Inr s'" and "k \<noteq> currentBatchId s'"
  shows "batches s' k = batches s k"
proof (cases c)
  case OpenBatch
  with assms(1) have "s' = create_batch (currentBatchId s') s"
    by (simp add: openBatch_Inr(3))
  then have "batches s' = batches (create_batch (currentBatchId s') s)"
    by simp
  with assms(2) show ?thesis by (simp add: create_batch_def emit_def)
next
  case (SubmitPartyAttributes x y z)
  with assms show ?thesis
    by (simp add: submitPartyAttributes_Inr(4,6))
next
  case (GenerateDungeonSeed r)
  with assms show ?thesis
    by (simp add: generateDungeonSeed_Inr(4,5))
next
  case (MyCallback r c' p')
  with assms show ?thesis
    by (simp add: myCallback_Inr(6))
qed (use assms in \<open>auto simp: transferOwnership_def addProvider_def removeProvider_def
      setPaused_def setCooldownSeconds_def closeBatch_def emit_def split: if_splits\<close>)

text \<open>
  C4, as the contract has it. Every successful call leaves every batch record other than
  the current one as it was, and every record with \<open>open = true\<close> has a key between 1 and
  \<open>currentBatchId\<close>. When \<open>openBatch\<close> is called while the current batch is open,
  \<open>currentBatchId\<close> advances by one and the new batch is written there with
  \<open>open = true\<close>; the superseded record is not written, so its \<open>open\<close> flag stays
  \<open>true\<close>. It is retired only by no longer being the current batch.
\<close>

theorem superseded_batch_not_closed:
  assumes "reachable E s" and "exec E a t c s = Inr s'"
  shows "(\<forall>k. k \<noteq> currentBatchId s' \<longrightarrow> batches s' k = batches s k)
     \<and> (\<forall>k. open (batches s' k) \<longrightarrow> k \<noteq> 0 \<and> k \<le> currentBatchId s')
     \<and> (c = OpenBatch \<and> open (batches s (currentBatchId s)) \<longrightarrow>
          currentBatchId s' = currentBatchId s + 1
          \<and> currentBatchId s < currentBatchId s'
          \<and> batches s' (currentBatchId s') = new_batch (currentBatchId s')
          \<and> open (batches s' (currentBatchId s)))"
proof (intro conjI allI impI)
  fix k assume "k \<noteq> currentBatchId s'"
  with assms(2) show "batches s' k = batches s k" by (rule exec_other_batches)
next
  have i: "storage_inv s'" using assms by (blast intro: reachable_inv reachable.transact)
  fix k assume "open (batches s' k)"
  with i have "k \<noteq> 0 \<and> k \<le> currentBatchId s'" by (rule inv_open_range)
  then show "k \<noteq> 0" and "k \<le> currentBatchId s'" by simp_all
next
  assume h: "c = OpenBatch \<and> open (batches s (currentBatchId s))"
  with assms(2) have o: "openBatch a s = Inr s'" by simp
  from openBatch_Inr(4)[OF o] h
  have n: "currentBatchId s' = currentBatchId s + 1 \<and> currentBatchId s < currentBatchId s'"
    by blast
  show "currentBatchId s' = currentBatchId s + 1" by (rule conjunct1[OF n])
  show lt: "currentBatchId s < currentBatchId s'" by (rule conjunct2[OF n])
  have "batches s' = batches (create_batch (currentBatchId s') s)"
    using openBatch_Inr(3)[OF o] by simp
  then show "batches s' (currentBatchId s') = new_batch (currentBatchId s')"
    by (simp add: create_batch_def emit_def)
  from lt have "currentBatchId s \<noteq> currentBatchId s'" by auto
  with assms(2) have "batches s' (currentBatchId s) = batches s (currentBatchId s)"
    by (rule exec_other_batches)
  with h show "open (batches s' (currentBatchId s))" by simp
qed

lemma two_open_state:
  "currentBatchId (run example_env open_txs (constructor 1)) = 1"
  "open (batches (run example_env open_txs (constructor 1)) 1)"
  "exec example_env 1 30 OpenBatch (run example_env open_txs (constructor 1))
     = Inr (run example_env two_open_txs (constructor 1))"
  by (simp_all add: open_txs_def two_open_txs_def eval_defs)

theorem superseded_batch_not_closed_witness:
  "reachable example_env (run example_env open_txs (constructor 1))
   \<and> currentBatchId (run example_env two_open_txs (constructor 1)) = 2
   \<and> batches (run example_env two_open_txs (constructor 1)) 2 = new_batch 2
   \<and> open (batches (run example_env two_open_txs (constructor 1)) 1)"
proof -
  let ?s = "run example_env open_txs (constructor 1)"
  have r: "reachable example_env ?s"
    by (rule reachable_run) (rule reachable.deployed)
  from superseded_batch_not_closed[OF r two_open_state(3)] r show ?thesis
    by (auto simp: two_open_state(1,2))
qed

text \<open>After two calls of \<open>openBatch\<close> the records 1 and 2 both have \<open>open = true\<close>.\<close>

theorem single_open_batch_counterexample:
  "reachable example_env (run example_env two_open_txs (constructor 1))
   \<and> open (batches (run example_env two_open_txs (constructor 1)) 1)
   \<and> open (batches (run example_env two_open_txs (constructor 1)) 2)
   \<and> (1 :: uint256) \<noteq> 2"
proof -
  have "reachable example_env (run example_env two_open_txs (constructor 1))"
    by (rule reachable_run) (rule reachable.deployed)
  then show ?thesis by (simp add: two_open_txs_def eval_defs)
qed

text \<open>
  C5, as the contract has it. \<open>openBatch\<close> writes a fresh open batch at the new
  \<open>currentBatchId\<close>. If the current batch is open, \<open>currentBatchId\<close> is incremented first
  and the new id has never been used: its record is still zero and no \<open>BatchOpened\<close> event
  carries it. If the current batch is not open, \<open>currentBatchId\<close> stays as it is, so a
  batch closed by \<open>closeBatch\<close> is overwritten and opened again under the same id.
\<close>

theorem openBatch_new_id:
  assumes "reachable E s" and "openBatch a s = Inr s'"
  shows "batches s' (currentBatchId s') = new_batch (currentBatchId s')
     \<and> (open (batches s (currentBatchId s)) \<longrightarrow>
          currentBatchId s' = currentBatchId s + 1
          \<and> currentBatchId s < currentBatchId s'
          \<and> batches s (currentBatchId s') = zero_batch
          \<and> BatchOpened (currentBatchId s') \<notin> set (events s))
     \<and> (\<not> open (batches s (currentBatchId s)) \<longrightarrow> currentBatchId s' = currentBatchId s)"
proof (intro conjI impI)
  have "batches s' = batches (create_batch (currentBatchId s') s)"
    using openBatch_Inr(3)[OF assms(2)] by simp
  then show "batches s' (currentBatchId s') = new_batch (currentBatchId s')"
    by (simp add: create_batch_def emit_def)
next
  assume "\<not> open (batches s (currentBatchId s))"
  then show "currentBatchId s' = currentBatchId s" by (rule openBatch_Inr(5)[OF assms(2)])
next
  have i: "storage_inv s" using assms(1) by (rule reachable_inv)
  assume "open (batches s (currentBatchId s))"
  then have n: "currentBatchId s' = currentBatchId s + 1 \<and> currentBatchId s < currentBatchId s'"
    by (rule openBatch_Inr(4)[OF assms(2)])
  show "currentBatchId s' = currentBatchId s + 1" by (rule conjunct1[OF n])
  show lt: "currentBatchId s < currentBatchId s'" by (rule conjunct2[OF n])
  from i lt show "batches s (currentBatchId s') = zero_batch"
    and "BatchOpened (currentBatchId s') \<notin> set (events s)"
    by (rule inv_fresh_id)+
qed

lemma reopen_state:
  "currentBatchId (run example_env reopen_txs (constructor 1)) = 1"
  "\<not> open (batches (run example_env reopen_txs (constructor 1)) 1)"
  "BatchOpened 1 \<in> set (events (run example_env reopen_txs (constructor 1)))"
  "openBatch 1 (run example_env reopen_txs (constructor 1))
     = Inr (run example_env (reopen_txs @ [(1, 40, OpenBatch)]) (constructor 1))"
  by (simp_all add: reopen_txs_def eval_defs)

theorem openBatch_new_id_witness:
  "reachable example_env (run example_env open_txs (constructor 1))
   \<and> currentBatchId (run example_env two_open_txs (constructor 1)) = 2
   \<and> BatchOpened 2 \<notin> set (events (run example_env open_txs (constructor 1)))
   \<and> currentBatchId (run example_env (reopen_txs @ [(1, 40, OpenBatch)]) (constructor 1)) = 1"
proof -
  let ?s = "run example_env open_txs (constructor 1)"
  let ?c = "run example_env reopen_txs (constructor 1)"
  have r: "reachable example_env ?s" and r': "reachable example_env ?c"
    by (rule reachable_run, rule reachable.deployed)+
  have o: "openBatch 1 ?s = Inr (run example_env two_open_txs (constructor 1))"
    using two_open_state(3) by simp
  from openBatch_new_id[OF r o] openBatch_new_id[OF r' reopen_state(4)] r show ?thesis
    by (auto simp: two_open_state(1,2) reopen_state(1,2))
qed

text \<open>
  Batch 1 was opened and closed. The next \<open>openBatch\<close> succeeds and opens id 1 again.
\<close>

theorem never_reopen_counterexample:
  "reachable example_env (run example_env reopen_txs (constructor 1))
   \<and> BatchOpened 1 \<in> set (events (run example_env reopen_txs (constructor 1)))
   \<and> openBatch 1 (run example_env reopen_txs (constructor 1))
       = Inr (run example_env (reopen_txs @ [(1, 40, OpenBatch)]) (constructor 1))
   \<and> currentBatchId (run example_env (reopen_txs @ [(1, 40, OpenBatch)]) (constructor 1)) = 1
   \<and> open (batches (run example_env (reopen_txs @ [(1, 40, OpenBatch)]) (constructor 1)) 1)"
proof -
  have "reachable example_env (run example_env reopen_txs (constructor 1))"
    by (rule reachable_run) (rule reachable.deployed)
  then show ?thesis
    by (simp add: reopen_state) (simp add: reopen_txs_def eval_defs)
qed

section \<open>Seed generation\<close>

text \<open>
  C6. A successful \<open>generateDungeonSeed\<close> stores on the current batch the seed
  \<open>FHE.add(FHE.mul(strength, agility), intellect)\<close> of the accumulators at the time of the
  call, keeps \<open>currentBatchId\<close>, and leaves the three accumulators of every batch unchanged.
\<close>

theorem generateDungeonSeed_seed:
  assumes "generateDungeonSeed E a t r s = Inr s'"
  shows "dungeonSeed (batches s' (currentBatchId s))
       = fhe_add E (fhe_mul E (totalEncryptedPartyStrength (batches s (currentBatchId s)))
                              (totalEncryptedPartyAgility (batches s (currentBatchId s))))
                   (totalEncryptedPartyIntellect (batches s (currentBatchId s)))
     \<and> currentBatchId s' = currentBatchId s
     \<and> (\<forall>k. totalEncryptedPartyStrength (batches s' k) = totalEncryptedPartyStrength (batches s k)
           \<and> totalEncryptedPartyAgility (batches s' k) = totalEncryptedPartyAgility (batches s k)
           \<and> totalEncryptedPartyIntellect (batches s' k)
               = totalEncryptedPartyIntellect (batches s k))"
  by (simp add: generateDungeonSeed_Inr(4,5)[OF assms])

lemma scenario_state:
  "currentBatchId (run example_env scenario_txs (constructor 1)) = 1"
  "batches (run example_env scenario_txs (constructor 1)) 1
     = \<lparr>id = 1, open = True, totalEncryptedPartyStrength = 9,
        totalEncryptedPartyAgility = 8, totalEncryptedPartyIntellect = 6, dungeonSeed = 0\<rparr>"
  "generateDungeonSeed example_env 2 200 7 (run example_env scenario_txs (constructor 1))
     = Inr (run example_env pending_txs (constructor 1))"
  by (simp_all add: pending_txs_def scenario_txs_def eval_defs)

text \<open>
  Providers 2 and 3 submit \<open>(5, 3, 4)\<close> and \<open>(4, 5, 2)\<close>; with handles that add and
  multiply as their plaintexts do, the seed is \<open>9 * 8 + 6 = 78\<close>.
\<close>

theorem generateDungeonSeed_seed_witness:
  "generateDungeonSeed example_env 2 200 7 (run example_env scenario_txs (constructor 1))
     = Inr (run example_env pending_txs (constructor 1))
   \<and> dungeonSeed (batches
        (run example_env pending_txs (constructor 1)) 1)
      = 78
   \<and> totalEncryptedPartyStrength (batches
        (run example_env pending_txs (constructor 1)) 1)
      = 9
   \<and> totalEncryptedPartyAgility (batches
        (run example_env pending_txs (constructor 1)) 1)
      = 8
   \<and> totalEncryptedPartyIntellect (batches
        (run example_env pending_txs (constructor 1)) 1)
      = 6"
  using generateDungeonSeed_seed[OF scenario_state(3)] scenario_state(3)
  by (simp add: scenario_state(1,2) example_env_simps)

section \<open>The decryption callback\<close>

lemma myCallback_mismatch:
  assumes "\<not> processed (decryptionContexts s r)"
    and "id (batches s (batchId (decryptionContexts s r))) \<noteq> 0"
    and "hashCiphertexts E (batch_cts (batches s (batchId (decryptionContexts s r))))
           \<noteq> stateHash (decryptionContexts s r)"
  shows "myCallback E r c p s = Inl StateMismatch"
  using assms by (simp add: myCallback_def Let_def)


text \<open>
  The running example: providers 2 and 3 have submitted, provider 2 has requested the
  decryption and received request id 7. A callback with the 128-byte reply and a
  non-empty proof is accepted and marks context 7 processed.
\<close>

lemma pending_state:
  "myCallback example_env 7 reply_cleartexts [1] (run example_env pending_txs (constructor 1))
     = Inr (run example_env processed_txs (constructor 1))"
  "processed (decryptionContexts
     (run example_env processed_txs (constructor 1)) 7)"
  "\<not> processed (decryptionContexts (run example_env pending_txs (constructor 1)) 7)"
  by (simp_all add: processed_txs_def pending_txs_def scenario_txs_def eval_defs)

text \<open>With cleartexts shorter than 128 bytes the same callback reverts in \<open>abi.decode\<close>.\<close>

lemma empty_cleartexts_rejected:
  "myCallback example_env 7 [] [1] (run example_env pending_txs (constructor 1))
     = Inl DecodeFailed"
  by (simp add: pending_txs_def scenario_txs_def eval_defs empty_cleartexts_decode)




text \<open>
  The case the statement is written for: a submission lands on the batch between the
  request and the callback. The callback is rejected as soon as the new handles hash
  differently.
\<close>

lemma submit_after_generate_stale:
  assumes "reachable E s"
    and "generateDungeonSeed E a t r s = Inr s1"
    and "submitPartyAttributes E a' t' x y z s1 = Inr s2"
    and "hashCiphertexts E (batch_cts (batches s2 (currentBatchId s)))
           \<noteq> hashCiphertexts E (batch_cts (batches s1 (currentBatchId s)))"
  shows "myCallback E r c p s2 = Inl StateMismatch"
proof -
  note g = generateDungeonSeed_Inr[OF assms(2)]
  note u = submitPartyAttributes_Inr[OF assms(3)]
  have ctx: "decryptionContexts s2 r = \<lparr>batchId = currentBatchId s,
      stateHash = hashCiphertexts E (batch_cts (batches s1 (currentBatchId s))),
      processed = False\<rparr>"
    by (simp add: u(5) g(6))
  have "storage_inv s1" using assms(1,2) by (blast intro: reachable_inv inv_generateDungeonSeed)
  moreover have "open (batches s1 (currentBatchId s))" using u(3) by (simp add: g(4))
  ultimately have "id (batches s1 (currentBatchId s)) = currentBatchId s"
    and "currentBatchId s \<noteq> 0"
    by (rule open_batch_id)+
  then have "id (batches s2 (currentBatchId s)) \<noteq> 0"
    by (simp add: u(6) g(4))
  with assms(4) show ?thesis
    by (simp add: myCallback_mismatch ctx)
qed









text \<open>
  C9, as the contract has it. \<open>myCallback\<close> is \<open>public\<close> and never reads \<open>msg.sender\<close>:
  its outcome is the same for every caller and every block time. It succeeds exactly when
  the context is unprocessed, its batch exists, the hashes agree, \<open>FHE.checkSignatures\<close>
  accepts the proof and the cleartexts decode.
\<close>

theorem myCallback_any_caller:
  "exec E a t (MyCallback r c p) s = exec E a' t' (MyCallback r c p) s
   \<and> ((\<exists>s'. exec E a t (MyCallback r c p) s = Inr s') \<longleftrightarrow>
        \<not> processed (decryptionContexts s r)
        \<and> id (batches s (batchId (decryptionContexts s r))) \<noteq> 0
        \<and> hashCiphertexts E (batch_cts (batches s (batchId (decryptionContexts s r))))
            = stateHash (decryptionContexts s r)
        \<and> checkSignatures E r c p
        \<and> abi_decode E c \<noteq> None)"
  by (auto simp: myCallback_def Let_def split: option.splits)

theorem myCallback_any_caller_witness:
  "exec example_env 5 250 (MyCallback 7 reply_cleartexts [1]) (run example_env pending_txs (constructor 1))
     = exec example_env 6 260 (MyCallback 7 reply_cleartexts [1]) (run example_env pending_txs (constructor 1))
   \<and> checkSignatures example_env 7 reply_cleartexts [1]"
  using myCallback_any_caller[of example_env 5 250 7 reply_cleartexts "[1]"
      "run example_env pending_txs (constructor 1)" 6 260] pending_state(1)
  by simp

text \<open>
  The same callback, with the 128-byte reply and an accepted proof, sent by address 5 and
  by address 6 succeeds both times and marks the context processed: at most one of the
  two can be the oracle.
\<close>

theorem oracle_only_counterexample:
  "reachable example_env (run example_env pending_txs (constructor 1))
   \<and> (5 :: address) \<noteq> 6
   \<and> exec example_env 5 250 (MyCallback 7 reply_cleartexts [1]) (run example_env pending_txs (constructor 1))
       = Inr (run example_env processed_txs (constructor 1))
   \<and> exec example_env 6 250 (MyCallback 7 reply_cleartexts [1]) (run example_env pending_txs (constructor 1))
       = Inr (run example_env processed_txs (constructor 1))
   \<and> \<not> processed (decryptionContexts (run example_env pending_txs (constructor 1)) 7)
   \<and> processed (decryptionContexts
        (run example_env processed_txs (constructor 1)) 7)"
proof -
  have "reachable example_env (run example_env pending_txs (constructor 1))"
    by (rule reachable_run) (rule reachable.deployed)
  then show ?thesis
    by (simp add: pending_state)
qed

end
